theory Spec2Isabelle
  imports Main
begin

section \<open>Data model of the radio group\<close>

text \<open>
  The \<open>index\<close> prop of \<open>RadioGroup\<close> has type \<open>number | null\<close> and is optional, so it
  has three shapes: left out (\<open>undefined\<close>), \<open>null\<close>, or a number. The context value
  \<open>selectedIndex\<close> is read from it when the group is controlled, so it has the same three
  shapes. Strict equality \<open>===\<close> on these values is equality of the datatype.
\<close>

datatype index_prop = Undefined | Null | Index int

text \<open>
  An entry of the \<open>descendants\<close> array: the DOM element of the radio button (\<open>null\<close>
  until the ref is attached; elements are named by a number here) and the
  \<open>DescendantProps\<close> field \<open>disabled\<close>, which \<open>Radio\<close> passes to \<open>useDescendant\<close>.

  Modelled from the spec: the registry behind \<open>useDescendant\<close> (\<open>@reach/descendants\<close>)
  is not among the sources. "Member ordinal positions are contiguous, zero-based, and
  reflect document order", so the ordinal of an entry is its position in the array, and
  the \<open>Radio\<close> registered at position \<open>i\<close> has \<open>index = i\<close>.
\<close>

record Descendant =
  element :: "nat option"
  disabled :: bool

text \<open>
  \<open>RadioGroupProps\<close>, as far as the selection logic reads them. \<open>defaultIndex\<close> has
  the default \<open>null\<close>; \<open>onChange\<close> records whether a callback was supplied.
\<close>

record RadioGroupProps =
  index :: index_prop
  defaultIndex :: "int option"
  onChange :: bool

text \<open>
  What a mounted \<open>RadioGroup\<close> keeps between renders: the ref \<open>isControlled\<close>, the
  state \<open>internalSelectedIndex\<close> and the registered descendants.
\<close>

record RadioGroup =
  isControlled :: bool
  internalSelectedIndex :: "int option"
  descendants :: "Descendant list"

text \<open>
  What a handler does to the outside world, in order: a call of the \<open>onChange\<close> prop,
  a call of \<open>focus()\<close> on an element, a call of the caller's own click or key handler.
\<close>

datatype effect = OnChange int | Focus nat | CallerHandler

datatype error = TypeError

datatype diagnostic = UncontrolledToControlled | ControlledToUncontrolled

section \<open>The group controller\<close>

text \<open>\<open>descendants[index]\<close>: a JavaScript array read, \<open>undefined\<close> out of range.\<close>

definition js_nth :: "'a list \<Rightarrow> int \<Rightarrow> 'a option" where
  "js_nth xs i = (if 0 \<le> i \<and> i < int (length xs) then Some (xs ! nat i) else None)"

definition wasControlled :: "RadioGroupProps \<Rightarrow> bool" where
  "wasControlled p = (index p \<noteq> Undefined)"

text \<open>First render: \<open>useRef(wasControlled)\<close>, \<open>useState(defaultIndex)\<close>, no descendants yet.\<close>

definition mount :: "RadioGroupProps \<Rightarrow> RadioGroup" where
  "mount p = \<lparr>isControlled = wasControlled p,
              internalSelectedIndex = defaultIndex p,
              descendants = []\<rparr>"

text \<open>\<open>selectedIndex: isControlled ? controlledIndex! : internalSelectedIndex\<close>\<close>

definition selectedIndex :: "RadioGroupProps \<Rightarrow> RadioGroup \<Rightarrow> index_prop" where
  "selectedIndex p g =
     (if isControlled g then index p
      else (case internalSelectedIndex g of None \<Rightarrow> Null | Some i \<Rightarrow> Index i))"

text \<open>
  \<open>onSelect\<close>. The effects are listed in the order of the statements; reading
  \<open>.element\<close> of \<open>undefined\<close> throws, and the statements after it do not run.
\<close>

definition onSelect ::
  "RadioGroupProps \<Rightarrow> RadioGroup \<Rightarrow> int \<Rightarrow> effect list \<times> (error + RadioGroup)" where
  "onSelect p g i =
     (let called = (if onChange p then [OnChange i] else []) in
      case js_nth (descendants g) i of
        None \<Rightarrow> (called, Inl TypeError)
      | Some d \<Rightarrow>
          (called @ (case element d of None \<Rightarrow> [] | Some e \<Rightarrow> [Focus e]),
           Inr (if \<not> isControlled g then g\<lparr>internalSelectedIndex := Some i\<rparr> else g)))"

text \<open>
  The two \<open>warning\<close> calls of the render, under the build flag \<open>__DEV__\<close> (a parameter:
  it is set by the build, not by this file). \<open>warning(condition, message)\<close> reports
  the message when the condition is false.
\<close>

definition warnings :: "bool \<Rightarrow> RadioGroupProps \<Rightarrow> RadioGroup \<Rightarrow> diagnostic list" where
  "warnings dev p g =
     (if dev then
        (if \<not> (\<not> (\<not> isControlled g \<and> wasControlled p)) then [UncontrolledToControlled] else []) @
        (if \<not> (\<not> (isControlled g \<and> \<not> wasControlled p)) then [ControlledToUncontrolled] else [])
      else [])"

text \<open>
  The life of one mounted group: renders with new props, registrations of the
  descendants, and calls of \<open>onSelect\<close>. A handler that throws leaves the group as it was.
\<close>

datatype step = Rerender RadioGroupProps | SetDescendants "Descendant list" | Select int

fun lifetime :: "RadioGroupProps \<Rightarrow> RadioGroup \<Rightarrow> step list \<Rightarrow> RadioGroupProps \<times> RadioGroup" where
  "lifetime p g [] = (p, g)"
| "lifetime p g (Rerender p' # ss) = lifetime p' g ss"
| "lifetime p g (SetDescendants ds # ss) = lifetime p (g\<lparr>descendants := ds\<rparr>) ss"
| "lifetime p g (Select i # ss) =
     (case snd (onSelect p g i) of
        Inl e \<Rightarrow> lifetime p g ss
      | Inr g' \<Rightarrow> lifetime p g' ss)"

section \<open>The radio button\<close>

text \<open>
  A \<open>Radio\<close> is given by the ordinal \<open>idx\<close> that \<open>useDescendant\<close> returned and by its
  \<open>disabled\<close> prop \<open>dis\<close>; \<open>sel\<close> is the \<open>selectedIndex\<close> of the context.
\<close>

definition isInitial :: "index_prop \<Rightarrow> int \<Rightarrow> bool \<Rightarrow> bool" where
  "isInitial sel idx dis = (sel = Null \<and> idx = 0 \<and> \<not> dis)"

definition isSelected :: "index_prop \<Rightarrow> int \<Rightarrow> bool" where
  "isSelected sel idx = (Index idx = sel)"

definition tabIndex :: "index_prop \<Rightarrow> int \<Rightarrow> bool \<Rightarrow> int" where
  "tabIndex sel idx dis = (if isInitial sel idx dis then 0 else if Index idx = sel then 0 else - 1)"

text \<open>A string prop is truthy when it is supplied and not empty.\<close>

definition truthy :: "string option \<Rightarrow> bool" where
  "truthy s = (case s of None \<Rightarrow> False | Some v \<Rightarrow> v \<noteq> [])"

text \<open>The rendered attributes \<open>aria-label\<close> and \<open>aria-labelledby\<close> of a \<open>Radio\<close>.\<close>

definition aria_label :: "string option \<Rightarrow> string option \<Rightarrow> string option" where
  "aria_label ariaLabel ariaLabelledby = ariaLabel"

definition aria_labelledby :: "string option \<Rightarrow> string option \<Rightarrow> string option" where
  "aria_labelledby ariaLabel ariaLabelledby = (if truthy ariaLabel then None else ariaLabelledby)"

text \<open>
  Modelled from the spec: \<open>wrapEvent\<close> of \<open>@reach/utils\<close> is not among the sources.
  "All locally consumed events still propagate to any caller-supplied handlers first
  (caller handler runs before internal handling; internal handling does not suppress
  the external one)." \<open>theirs\<close> tells whether the caller supplied a handler.
\<close>

definition wrapEvent :: "bool \<Rightarrow> effect list \<times> 'a \<Rightarrow> effect list \<times> 'a" where
  "wrapEvent theirs ours = ((if theirs then [CallerHandler] else []) @ fst ours, snd ours)"

definition handleClick ::
  "RadioGroupProps \<Rightarrow> RadioGroup \<Rightarrow> int \<Rightarrow> effect list \<times> (error + RadioGroup)" where
  "handleClick p g idx = onSelect p g idx"

text \<open>\<open>onClick={wrapEvent(onClick, handleClick)}\<close>\<close>

definition Radio_onClick ::
  "RadioGroupProps \<Rightarrow> RadioGroup \<Rightarrow> bool \<Rightarrow> int \<Rightarrow> effect list \<times> (error + RadioGroup)" where
  "Radio_onClick p g theirs idx = wrapEvent theirs (handleClick p g idx)"

section \<open>Keyboard navigation\<close>

datatype nav_key = Next | Previous | First | Last

datatype key = Space | Nav nav_key | Other

text \<open>\<open>filter: (radio) => !radio.disabled\<close>, as the ordinals that pass it, in order.\<close>

definition selectable :: "Descendant list \<Rightarrow> nat list" where
  "selectable ds = filter (\<lambda>i. \<not> disabled (ds ! i)) [0..<length ds]"

fun position :: "nat list \<Rightarrow> int \<Rightarrow> nat option" where
  "position [] c = None"
| "position (x # xs) c =
     (if int x = c then Some 0 else map_option Suc (position xs c))"

text \<open>
  Modelled from the spec: \<open>useDescendantKeyDown\<close> of \<open>@reach/descendants\<close> is not among
  the sources. It is "a roving-keyboard-navigation helper (computes next-target ordinal
  given current index, orientation "both axes", and a filter excluding disabled
  entries)", "operating over the ordered, enabled-only subset of Members", for the keys
  "next/previous/first/last", where "movement wraps at the ends (last\<rightarrow>first,
  first\<rightarrow>last)". The result is the target ordinal handed to the callback; there is none
  when no Member is enabled.

  The current index is looked up among the enabled Members. The spec's rule for
  navigation with nothing selected presupposes that a target is reached there too, so
  a current index that is not found (nothing selected, or the selected Member is not
  an enabled one) counts as the position \<open>-1\<close>, one before the first enabled Member:
  "next" from it reaches the first enabled Member. "next" and "previous" move the
  position by one, modulo the number of enabled Members.
\<close>

definition currentPosition :: "nat list \<Rightarrow> index_prop \<Rightarrow> int" where
  "currentPosition es currentIndex =
     (case currentIndex of
        Index c \<Rightarrow> (case position es c of Some j \<Rightarrow> int j | None \<Rightarrow> - 1)
      | _ \<Rightarrow> - 1)"

definition useDescendantKeyDown :: "Descendant list \<Rightarrow> index_prop \<Rightarrow> nav_key \<Rightarrow> nat option" where
  "useDescendantKeyDown ds currentIndex k =
     (let es = selectable ds; pos = currentPosition es currentIndex in
      if es = [] then None
      else case k of
        First \<Rightarrow> Some (hd es)
      | Last \<Rightarrow> Some (last es)
      | Next \<Rightarrow> Some (es ! nat ((pos + 1) mod int (length es)))
      | Previous \<Rightarrow> Some (es ! nat ((pos - 1) mod int (length es))))"

text \<open>The ordinal that \<open>callback(index)\<close> passes on: \<open>isInitial ? index + 1 : index\<close>.\<close>

definition callback_arg :: "index_prop \<Rightarrow> int \<Rightarrow> bool \<Rightarrow> int \<Rightarrow> int" where
  "callback_arg sel idx dis t = (if isInitial sel idx dis then t + 1 else t)"

text \<open>
  \<open>descendantKeyDown\<close>: the helper is given \<open>currentIndex: selectedIndex\<close>, the filter
  and the callback, which calls \<open>onSelect\<close>. Where the helper has no target (no Member
  is enabled), the callback is not called.
\<close>

definition descendantKeyDown ::
  "RadioGroupProps \<Rightarrow> RadioGroup \<Rightarrow> int \<Rightarrow> bool \<Rightarrow> nav_key \<Rightarrow> effect list \<times> (error + RadioGroup)" where
  "descendantKeyDown p g idx dis k =
     (case useDescendantKeyDown (descendants g) (selectedIndex p g) k of
        None \<Rightarrow> ([], Inr g)
      | Some t \<Rightarrow> onSelect p g (callback_arg (selectedIndex p g) idx dis (int t)))"

text \<open>
  \<open>handleKeyDown\<close>: the space key selects the button itself unless it is selected; the
  event then goes to \<open>descendantKeyDown\<close>, which acts on the navigation keys only.
\<close>

definition handleKeyDown ::
  "RadioGroupProps \<Rightarrow> RadioGroup \<Rightarrow> int \<Rightarrow> bool \<Rightarrow> key \<Rightarrow> effect list \<times> (error + RadioGroup)" where
  "handleKeyDown p g idx dis e =
     (case e of
        Space \<Rightarrow> (if \<not> isSelected (selectedIndex p g) idx then onSelect p g idx else ([], Inr g))
      | Nav k \<Rightarrow> descendantKeyDown p g idx dis k
      | Other \<Rightarrow> ([], Inr g))"

text \<open>\<open>onKeyDown={wrapEvent(onKeyDown, handleKeyDown)}\<close>\<close>

definition Radio_onKeyDown ::
  "RadioGroupProps \<Rightarrow> RadioGroup \<Rightarrow> bool \<Rightarrow> int \<Rightarrow> bool \<Rightarrow> key \<Rightarrow> effect list \<times> (error + RadioGroup)" where
  "Radio_onKeyDown p g theirs idx dis e = wrapEvent theirs (handleKeyDown p g idx dis e)"

section \<open>Example groups\<close>

text \<open>
  The story's group "Pizza crust": three enabled buttons, uncontrolled, nothing
  selected; elements 10, 11, 12. \<open>crust_disabled\<close> is the same with the second button
  disabled.
\<close>

definition crust :: RadioGroup where
  "crust = \<lparr>isControlled = False, internalSelectedIndex = None,
            descendants = [\<lparr>element = Some 10, disabled = False\<rparr>,
                           \<lparr>element = Some 11, disabled = False\<rparr>,
                           \<lparr>element = Some 12, disabled = False\<rparr>]\<rparr>"

definition crust_disabled :: RadioGroup where
  "crust_disabled = \<lparr>isControlled = False, internalSelectedIndex = None,
            descendants = [\<lparr>element = Some 10, disabled = False\<rparr>,
                           \<lparr>element = Some 11, disabled = True\<rparr>,
                           \<lparr>element = Some 12, disabled = False\<rparr>]\<rparr>"

text \<open>The same three buttons in a group that was mounted with an \<open>index\<close> prop.\<close>

definition crust_controlled :: RadioGroup where
  "crust_controlled = crust\<lparr>isControlled := True\<rparr>"

definition uncontrolled_props :: RadioGroupProps where
  "uncontrolled_props = \<lparr>index = Undefined, defaultIndex = None, onChange = True\<rparr>"

definition controlled_props :: "int \<Rightarrow> RadioGroupProps" where
  "controlled_props i = \<lparr>index = Index i, defaultIndex = None, onChange = True\<rparr>"

section \<open>Facts about the model\<close>

lemma js_nth_in_range: "0 \<le> i \<Longrightarrow> i < int (length xs) \<Longrightarrow> js_nth xs i = Some (xs ! nat i)"
  by (simp add: js_nth_def)

lemma js_nth_out_of_range: "i < 0 \<or> int (length xs) \<le> i \<Longrightarrow> js_nth xs i = None"
  by (auto simp: js_nth_def)

lemma onSelect_out_of_range:
  "i < 0 \<or> int (length (descendants g)) \<le> i \<Longrightarrow>
   onSelect p g i = ((if onChange p then [OnChange i] else []), Inl TypeError)"
  by (simp add: onSelect_def js_nth_out_of_range)

lemma click_calls_onSelect: "Radio_onClick p g False idx = onSelect p g idx"
  by (simp add: Radio_onClick_def wrapEvent_def handleClick_def)

lemma onSelect_isControlled:
  "snd (onSelect p g i) = Inr g' \<Longrightarrow> isControlled g' = isControlled g"
  by (auto simp: onSelect_def Let_def split: option.splits if_splits)

lemma lifetime_isControlled:
  "lifetime p g ss = (p', g') \<Longrightarrow> isControlled g' = isControlled g"
proof (induction ss arbitrary: p g)
  case Nil
  then show ?case by simp
next
  case (Cons s ss)
  show ?case
  proof (cases s)
    case (Rerender q)
    with Cons show ?thesis by simp
  next
    case (SetDescendants ds)
    with Cons.prems have "lifetime p (g\<lparr>descendants := ds\<rparr>) ss = (p', g')" by simp
    from Cons.IH [OF this] show ?thesis by simp
  next
    case (Select i)
    show ?thesis
    proof (cases "snd (onSelect p g i)")
      case (Inl e)
      with Select Cons show ?thesis by simp
    next
      case (Inr h)
      with Select Cons.prems have "lifetime p h ss = (p', g')" by simp
      from Cons.IH [OF this] onSelect_isControlled [OF Inr] show ?thesis by simp
    qed
  qed
qed

lemma selectable_enabled: "t \<in> set (selectable ds) \<Longrightarrow> t < length ds \<and> \<not> disabled (ds ! t)"
  by (auto simp: selectable_def)

lemma selectable_distinct: "distinct (selectable ds)"
  by (simp add: selectable_def)

lemma position_bound: "position es c = Some j \<Longrightarrow> j < length es \<and> int (es ! j) = c"
  by (induction es arbitrary: j) (auto split: if_splits)

lemma position_hd: "es \<noteq> [] \<Longrightarrow> position es (int (hd es)) = Some 0"
  by (cases es) auto

lemma position_last: "es \<noteq> [] \<Longrightarrow> distinct es \<Longrightarrow> position es (int (last es)) = Some (length es - 1)"
proof (induction es)
  case Nil
  then show ?case by simp
next
  case (Cons x xs)
  show ?case
  proof (cases "xs = []")
    case True
    then show ?thesis by simp
  next
    case False
    with Cons.prems have "x \<noteq> last xs" by auto
    with False Cons show ?thesis by simp
  qed
qed

lemma wrapped_position: "es \<noteq> [] \<Longrightarrow> es ! nat (x mod int (length es)) \<in> set es"
proof -
  assume "es \<noteq> []"
  then have n: "0 < int (length es)" by simp
  then have "0 \<le> x mod int (length es)" and "x mod int (length es) < int (length es)"
    by (simp_all only: pos_mod_sign pos_mod_bound)
  then have "nat (x mod int (length es)) < length es" by linarith
  then show ?thesis by simp
qed

lemma useDescendantKeyDown_enabled:
  assumes "useDescendantKeyDown ds c k = Some t"
  shows "t < length ds \<and> \<not> disabled (ds ! t)"
proof -
  let ?es = "selectable ds"
  from assms have ne: "?es \<noteq> []"
    by (auto simp: useDescendantKeyDown_def Let_def split: if_splits)
  have "t \<in> set ?es"
  proof (cases k)
    case First
    with assms ne have "t = hd ?es" by (simp add: useDescendantKeyDown_def Let_def)
    with ne show ?thesis by simp
  next
    case Last
    with assms ne have "t = last ?es" by (simp add: useDescendantKeyDown_def Let_def)
    with ne show ?thesis by simp
  next
    case Next
    with assms ne have "t = ?es ! nat ((currentPosition ?es c + 1) mod int (length ?es))"
      by (simp add: useDescendantKeyDown_def Let_def)
    with wrapped_position [OF ne] show ?thesis by simp
  next
    case Previous
    with assms ne have "t = ?es ! nat ((currentPosition ?es c - 1) mod int (length ?es))"
      by (simp add: useDescendantKeyDown_def Let_def)
    with wrapped_position [OF ne] show ?thesis by simp
  qed
  then show ?thesis by (rule selectable_enabled)
qed

lemma useDescendantKeyDown_target:
  "selectable ds \<noteq> [] \<Longrightarrow> \<exists>t. useDescendantKeyDown ds c k = Some t"
  by (cases k) (simp_all add: useDescendantKeyDown_def Let_def)

lemma useDescendantKeyDown_wraps:
  assumes "selectable ds \<noteq> []"
  shows "useDescendantKeyDown ds (Index (int (last (selectable ds)))) Next = Some (hd (selectable ds))"
    and "useDescendantKeyDown ds (Index (int (hd (selectable ds)))) Previous = Some (last (selectable ds))"
proof -
  let ?es = "selectable ds"
  let ?n = "int (length ?es)"
  from assms have len: "0 < length ?es" by simp
  have "position ?es (int (last ?es)) = Some (length ?es - 1)"
    using assms selectable_distinct by (rule position_last)
  then have "currentPosition ?es (Index (int (last ?es))) = int (length ?es - 1)"
    by (simp add: currentPosition_def)
  with len have "currentPosition ?es (Index (int (last ?es))) + 1 = ?n"
    by linarith
  then have "nat ((currentPosition ?es (Index (int (last ?es))) + 1) mod ?n) = 0"
    by simp
  then show "useDescendantKeyDown ds (Index (int (last ?es))) Next = Some (hd ?es)"
    using assms by (simp add: useDescendantKeyDown_def Let_def hd_conv_nth)
  have "position ?es (int (hd ?es)) = Some 0"
    using assms by (rule position_hd)
  then have "currentPosition ?es (Index (int (hd ?es))) - 1 = - 1"
    by (simp add: currentPosition_def)
  moreover from len have "(- 1) mod ?n = ?n - 1"
    by (simp add: zmod_minus1)
  ultimately have "nat ((currentPosition ?es (Index (int (hd ?es))) - 1) mod ?n) = length ?es - 1"
    using len by simp
  then show "useDescendantKeyDown ds (Index (int (hd ?es))) Previous = Some (last ?es)"
    using assms by (simp add: useDescendantKeyDown_def Let_def last_conv_nth)
qed

lemma useDescendantKeyDown_unselected:
  assumes "selectable ds \<noteq> []"
  shows "useDescendantKeyDown ds Null Next = Some (hd (selectable ds))"
  using assms by (simp add: useDescendantKeyDown_def Let_def currentPosition_def hd_conv_nth)

lemma filter_eq_length: "length (filter (\<lambda>i. int i = k) [0..<n]) \<le> 1"
proof -
  have "distinct (filter (\<lambda>i. int i = k) [0..<n])" by simp
  then have "length (filter (\<lambda>i. int i = k) [0..<n]) = card (set (filter (\<lambda>i. int i = k) [0..<n]))"
    by (simp only: distinct_card)
  also have "\<dots> \<le> card {nat k}"
    by (rule card_mono) auto
  finally show ?thesis by simp
qed

lemma descendantKeyDown_calls_onSelect:
  assumes "useDescendantKeyDown (descendants g) (selectedIndex p g) k = Some t"
  shows "descendantKeyDown p g idx dis k =
     onSelect p g (if isInitial (selectedIndex p g) idx dis then int t + 1 else int t)"
  using assms by (simp add: descendantKeyDown_def callback_arg_def)

lemma navigation_from_selection:
  assumes "selectedIndex p g \<noteq> Null"
    and "useDescendantKeyDown (descendants g) (selectedIndex p g) k = Some t"
  shows "descendantKeyDown p g idx dis k = onSelect p g (int t)
       \<and> t < length (descendants g) \<and> \<not> disabled (descendants g ! t)"
  using assms useDescendantKeyDown_enabled [OF assms(2)]
  by (simp add: descendantKeyDown_def callback_arg_def isInitial_def)

lemma tabIndex_cases:
  "tabIndex sel idx dis = (if sel = Index idx \<or> (sel = Null \<and> idx = 0 \<and> \<not> dis) then 0 else - 1)"
  by (simp add: tabIndex_def isInitial_def)

lemma sole_tab_stop:
  assumes "\<not> disabled (ds ! 0)" and "i < length ds"
  shows "tabIndex Null (int i) (disabled (ds ! i)) = 0 \<longleftrightarrow> i = 0"
proof (cases "i = 0")
  case True
  with assms show ?thesis by (simp add: tabIndex_cases)
next
  case False
  then show ?thesis by (simp add: tabIndex_cases)
qed

lemma crust_selectable: "selectable (descendants crust) = [0, 1, 2]"
  by (simp add: selectable_def crust_def upt_rec)

lemma crust_disabled_selectable: "selectable (descendants crust_disabled) = [0, 2]"
  by (simp add: selectable_def crust_disabled_def upt_rec)

lemma crust_sel: "selectedIndex uncontrolled_props crust = Null"
  by (simp add: selectedIndex_def crust_def)

lemma crust_disabled_sel: "selectedIndex uncontrolled_props crust_disabled = Null"
  by (simp add: selectedIndex_def crust_disabled_def)

section \<open>Selection requests outside the membership\<close>

text \<open>
  C1. The claim: a selection request whose ordinal is outside the current membership is
  a no-op; it changes no selection, moves no focus and raises no fault. The code, at
  \<open>onSelect(3)\<close> in the group of three buttons: \<open>onChange(3)\<close> is called, then the read
  \<open>descendants[3].element\<close> throws a \<open>TypeError\<close>.
\<close>

theorem out_of_range_select_throws:
  "onSelect uncontrolled_props crust 3 = ([OnChange 3], Inl TypeError)"
  by (simp add: onSelect_def uncontrolled_props_def crust_def js_nth_def)

section \<open>Clicks\<close>

text \<open>
  C2. The claim: a click on an enabled Member calls \<open>onSelect\<close> with its ordinal, and a
  click on a disabled Member never changes \<open>selectedIndex\<close>. The code, at a click on the
  disabled second button of an uncontrolled group with nothing selected: \<open>handleClick\<close>
  calls \<open>onSelect(1)\<close>, the button is focused and \<open>selectedIndex\<close> goes from \<open>null\<close> to 1.
\<close>

theorem click_on_disabled_selects:
  "disabled (descendants crust_disabled ! 1)
   \<and> selectedIndex uncontrolled_props crust_disabled = Null
   \<and> Radio_onClick uncontrolled_props crust_disabled False 1 =
       ([OnChange 1, Focus 11], Inr (crust_disabled\<lparr>internalSelectedIndex := Some 1\<rparr>))
   \<and> selectedIndex uncontrolled_props (crust_disabled\<lparr>internalSelectedIndex := Some 1\<rparr>) = Index 1"
  by (simp add: Radio_onClick_def wrapEvent_def handleClick_def onSelect_def uncontrolled_props_def
      crust_disabled_def js_nth_def selectedIndex_def)

section \<open>What navigation selects\<close>

text \<open>
  C3. The claim: when nothing is selected and the initial-Member rule applies to the
  button that received the key, navigation selects the Member immediately after the
  initial one, ordinal 1; in all other cases it selects the target's own ordinal. The
  code, in the group of three enabled buttons with nothing selected, at the key "last"
  on the first button: the rule applies, the target is ordinal 2, and the callback
  calls \<open>onSelect(2 + 1)\<close>. Ordinal 3 is no Member: \<open>onChange(3)\<close> is called, the read of
  the descendant throws, and nothing is selected, where \<open>onSelect(1)\<close> would have focused
  and selected the second button.
\<close>

theorem navigation_initial_past_target:
  "isInitial (selectedIndex uncontrolled_props crust) 0 False
   \<and> useDescendantKeyDown (descendants crust) (selectedIndex uncontrolled_props crust) Last = Some 2
   \<and> Radio_onKeyDown uncontrolled_props crust False 0 False (Nav Last) = ([OnChange 3], Inl TypeError)
   \<and> onSelect uncontrolled_props crust 1 =
       ([OnChange 1, Focus 11], Inr (crust\<lparr>internalSelectedIndex := Some 1\<rparr>))"
  by (simp add: Radio_onKeyDown_def wrapEvent_def handleKeyDown_def descendantKeyDown_def
      callback_arg_def useDescendantKeyDown_def crust_selectable isInitial_def crust_sel)
     (simp add: onSelect_def js_nth_def uncontrolled_props_def crust_def)

section \<open>Selecting a registered Member\<close>

text \<open>
  C4. For an index \<open>i\<close> in range, \<open>onSelect(i)\<close> calls \<open>onChange(i)\<close> when the callback is
  supplied; an uncontrolled group stores \<open>i\<close>, and its \<open>selectedIndex\<close> is then \<open>i\<close>; a
  controlled group is left as it was, and its \<open>selectedIndex\<close> is the \<open>index\<close> prop of
  whatever props it is rendered with.
\<close>

theorem select_in_range:
  assumes "0 \<le> i" and "i < int (length (descendants g))"
  shows "(onChange p \<longrightarrow> OnChange i \<in> set (fst (onSelect p g i)))
       \<and> (\<not> isControlled g \<longrightarrow>
            snd (onSelect p g i) = Inr (g\<lparr>internalSelectedIndex := Some i\<rparr>)
          \<and> selectedIndex p (g\<lparr>internalSelectedIndex := Some i\<rparr>) = Index i)
       \<and> (isControlled g \<longrightarrow>
            snd (onSelect p g i) = Inr g \<and> (\<forall>p'. selectedIndex p' g = index p'))"
  using assms by (simp add: onSelect_def js_nth_def selectedIndex_def Let_def)

text \<open>
  The spec's scenario: controlled with \<open>index = 1\<close>, selecting item 0 calls
  \<open>onChange(0)\<close> and \<open>selectedIndex\<close> stays 1; uncontrolled, selecting item 2 stores 2.
\<close>

theorem select_in_range_witness:
  "OnChange 0 \<in> set (fst (onSelect (controlled_props 1) crust_controlled 0))
   \<and> snd (onSelect (controlled_props 1) crust_controlled 0) = Inr crust_controlled
   \<and> selectedIndex (controlled_props 1) crust_controlled = Index 1
   \<and> snd (onSelect uncontrolled_props crust 2) = Inr (crust\<lparr>internalSelectedIndex := Some 2\<rparr>)
   \<and> selectedIndex uncontrolled_props (crust\<lparr>internalSelectedIndex := Some 2\<rparr>) = Index 2"
proof -
  have c: "(0::int) \<le> 0" "(0::int) < int (length (descendants crust_controlled))"
    by (simp_all add: crust_controlled_def crust_def)
  have u: "(0::int) \<le> 2" "(2::int) < int (length (descendants crust))"
    by (simp_all add: crust_def)
  from select_in_range [OF c, of "controlled_props 1"] select_in_range [OF u, of uncontrolled_props]
  show ?thesis
    by (simp add: controlled_props_def uncontrolled_props_def crust_controlled_def crust_def)
qed

section \<open>Navigation and disabled Members\<close>

text \<open>
  C5. The claim: keyboard navigation skips disabled Members entirely, and wraps at the
  ends. The code, at the group [enabled, disabled, enabled] with nothing selected and
  the key "first" on the first button: the target is ordinal 0, the initial-Member rule
  applies, \<open>onSelect(1)\<close> is called, and the disabled second button is focused and
  selected.
\<close>

theorem navigation_lands_on_disabled:
  "disabled (descendants crust_disabled ! 1)
   \<and> selectedIndex uncontrolled_props crust_disabled = Null
   \<and> useDescendantKeyDown (descendants crust_disabled) Null First = Some 0
   \<and> Radio_onKeyDown uncontrolled_props crust_disabled False 0 False (Nav First) =
       ([OnChange 1, Focus 11], Inr (crust_disabled\<lparr>internalSelectedIndex := Some 1\<rparr>))"
  by (simp add: Radio_onKeyDown_def wrapEvent_def handleKeyDown_def descendantKeyDown_def
      callback_arg_def useDescendantKeyDown_def crust_disabled_selectable isInitial_def
      crust_disabled_sel)
     (simp add: onSelect_def js_nth_def uncontrolled_props_def crust_disabled_def)

section \<open>Tab stops and the selected Member\<close>

text \<open>
  C6. A Member's \<open>tabIndex\<close> is 0 exactly when it is selected (its ordinal equals
  \<open>selectedIndex\<close>) or it is the initial Member (\<open>selectedIndex\<close> is \<open>null\<close>, its ordinal
  is 0 and it is not disabled), and it is \<open>-1\<close> otherwise. So in a group with nothing
  selected whose first Member is enabled, the first Member is the only Member with
  \<open>tabIndex\<close> 0, and no Member is selected.
\<close>

theorem tabIndex_roving:
  "(tabIndex sel idx dis = 0 \<longleftrightarrow> sel = Index idx \<or> (sel = Null \<and> idx = 0 \<and> \<not> dis))
   \<and> (tabIndex sel idx dis = 0 \<or> tabIndex sel idx dis = - 1)
   \<and> (isSelected sel idx \<longleftrightarrow> sel = Index idx)
   \<and> (selectedIndex p g = Null \<and> descendants g \<noteq> [] \<and> \<not> disabled (descendants g ! 0) \<longrightarrow>
        (\<forall>i < length (descendants g).
           (tabIndex (selectedIndex p g) (int i) (disabled (descendants g ! i)) = 0 \<longleftrightarrow> i = 0)
           \<and> \<not> isSelected (selectedIndex p g) (int i)))"
proof -
  have "tabIndex sel idx dis = 0 \<longleftrightarrow> sel = Index idx \<or> (sel = Null \<and> idx = 0 \<and> \<not> dis)"
    by (simp add: tabIndex_cases)
  moreover have "tabIndex sel idx dis = 0 \<or> tabIndex sel idx dis = - 1"
    by (simp add: tabIndex_cases)
  moreover have "isSelected sel idx \<longleftrightarrow> sel = Index idx"
    by (auto simp: isSelected_def)
  moreover have "selectedIndex p g = Null \<and> descendants g \<noteq> [] \<and> \<not> disabled (descendants g ! 0) \<longrightarrow>
        (\<forall>i < length (descendants g).
           (tabIndex (selectedIndex p g) (int i) (disabled (descendants g ! i)) = 0 \<longleftrightarrow> i = 0)
           \<and> \<not> isSelected (selectedIndex p g) (int i))"
    using sole_tab_stop [of "descendants g"] by (simp add: isSelected_def)
  ultimately show ?thesis by blast
qed

text \<open>
  The story's group on its first render: the first button has \<open>tabIndex\<close> 0, the other
  two have \<open>-1\<close>.
\<close>

theorem tabIndex_roving_witness:
  "selectedIndex uncontrolled_props crust = Null \<and> descendants crust \<noteq> []
   \<and> \<not> disabled (descendants crust ! 0)
   \<and> tabIndex (selectedIndex uncontrolled_props crust) 0 (disabled (descendants crust ! 0)) = 0
   \<and> tabIndex (selectedIndex uncontrolled_props crust) 1 (disabled (descendants crust ! 1)) = - 1
   \<and> tabIndex (selectedIndex uncontrolled_props crust) 2 (disabled (descendants crust ! 2)) = - 1"
proof -
  have h: "selectedIndex uncontrolled_props crust = Null \<and> descendants crust \<noteq> []
      \<and> \<not> disabled (descendants crust ! 0)"
    by (simp add: crust_sel) (simp add: crust_def)
  with tabIndex_roving [of Null 0 False uncontrolled_props crust]
  have "\<forall>i < length (descendants crust).
      (tabIndex Null (int i) (disabled (descendants crust ! i)) = 0 \<longleftrightarrow> i = 0)"
    by simp
  with h show ?thesis by (simp add: crust_def tabIndex_cases)
qed

text \<open>
  C7. For every group, under any props and in any state, at most one of the registered
  Members has \<open>isSelected\<close> true.
\<close>

theorem at_most_one_selected:
  "length (filter (\<lambda>i. isSelected (selectedIndex p g) (int i)) [0..<length (descendants g)]) \<le> 1"
proof (cases "selectedIndex p g")
  case Undefined
  then show ?thesis by (simp add: isSelected_def)
next
  case Null
  then show ?thesis by (simp add: isSelected_def)
next
  case (Index k)
  then show ?thesis using filter_eq_length [of k] by (simp add: isSelected_def)
qed

section \<open>The control mode\<close>

text \<open>
  C8. Take a group mounted with props \<open>p0\<close> and then any sequence of renders,
  registrations and selections, ending with props \<open>p\<close> and state \<open>g\<close>. Its mode is still
  the one of the first render. In a development build a warning is reported when the
  presence of the \<open>index\<close> prop differs from the first render, and none is reported when
  it does not. A group mounted uncontrolled reads its own stored selection whatever
  \<open>index\<close> is supplied now; a group mounted controlled reads the \<open>index\<close> prop.
\<close>

theorem control_mode_fixed:
  assumes "lifetime p0 (mount p0) ss = (p, g)"
  shows "isControlled g = wasControlled p0
       \<and> (dev \<and> wasControlled p \<noteq> wasControlled p0 \<longrightarrow> warnings dev p g \<noteq> [])
       \<and> (wasControlled p = wasControlled p0 \<longrightarrow> warnings dev p g = [])
       \<and> (\<not> wasControlled p0 \<longrightarrow>
            selectedIndex p g = (case internalSelectedIndex g of None \<Rightarrow> Null | Some i \<Rightarrow> Index i))
       \<and> (wasControlled p0 \<longrightarrow> selectedIndex p g = index p)"
proof -
  from assms have "isControlled g = isControlled (mount p0)"
    by (rule lifetime_isControlled)
  then have m: "isControlled g = wasControlled p0"
    by (simp add: mount_def)
  then show ?thesis
    by (auto simp: warnings_def selectedIndex_def)
qed

text \<open>
  An uncontrolled group in which item 2 was selected is rendered with \<open>index = 0\<close>: a
  warning is reported and the selection is still 2.
\<close>

theorem control_mode_fixed_witness:
  "lifetime uncontrolled_props (mount uncontrolled_props)
     [SetDescendants (descendants crust), Select 2, Rerender (controlled_props 0)]
     = (controlled_props 0, crust\<lparr>internalSelectedIndex := Some 2\<rparr>)
   \<and> \<not> wasControlled uncontrolled_props \<and> wasControlled (controlled_props 0)
   \<and> warnings True (controlled_props 0) (crust\<lparr>internalSelectedIndex := Some 2\<rparr>) \<noteq> []
   \<and> selectedIndex (controlled_props 0) (crust\<lparr>internalSelectedIndex := Some 2\<rparr>) = Index 2"
proof -
  have l: "lifetime uncontrolled_props (mount uncontrolled_props)
     [SetDescendants (descendants crust), Select 2, Rerender (controlled_props 0)]
     = (controlled_props 0, crust\<lparr>internalSelectedIndex := Some 2\<rparr>)"
    by (simp add: mount_def uncontrolled_props_def wasControlled_def crust_def onSelect_def js_nth_def)
  have w: "\<not> wasControlled uncontrolled_props \<and> wasControlled (controlled_props 0)"
    by (simp add: wasControlled_def uncontrolled_props_def controlled_props_def)
  from control_mode_fixed [OF l, of True] l w show ?thesis by simp
qed

section \<open>The accessible label\<close>

text \<open>
  C9, as amended. The label string comes first: when \<open>aria-label\<close> is supplied and not
  empty it is rendered and \<open>aria-labelledby\<close> is left out, whatever reference was
  supplied; otherwise the supplied \<open>aria-labelledby\<close> is rendered; when neither is
  rendered, the content of the button is its label.
\<close>

theorem label_precedence:
  "(truthy l \<longrightarrow> aria_label l r = l \<and> aria_labelledby l r = None)
   \<and> (\<not> truthy l \<longrightarrow> aria_label l r = l \<and> aria_labelledby l r = r)"
  by (simp add: aria_label_def aria_labelledby_def)

theorem label_precedence_witness:
  "truthy (Some ''Thin crust'')
   \<and> aria_label (Some ''Thin crust'') (Some ''crust-heading'') = Some ''Thin crust''
   \<and> aria_labelledby (Some ''Thin crust'') (Some ''crust-heading'') = None
   \<and> \<not> truthy None
   \<and> aria_labelledby None (Some ''crust-heading'') = Some ''crust-heading''"
proof -
  have t: "truthy (Some ''Thin crust'')" "\<not> truthy None"
    by (simp_all add: truthy_def)
  from label_precedence [of "Some ''Thin crust''" "Some ''crust-heading''"]
    label_precedence [of None "Some ''crust-heading''"] t
  show ?thesis by simp
qed

text \<open>
  C9 as stated fails: with both a label string and a label reference supplied, the
  reference is not rendered and the string is.
\<close>

theorem label_reference_dropped:
  "aria_labelledby (Some ''Thin crust'') (Some ''crust-heading'') \<noteq> Some ''crust-heading''
   \<and> aria_label (Some ''Thin crust'') (Some ''crust-heading'') = Some ''Thin crust''"
  by (simp add: aria_label_def aria_labelledby_def truthy_def)

section \<open>Focus\<close>

text \<open>
  C10. For an index \<open>i\<close> in range whose Member has an element, \<open>onSelect(i)\<close> calls
  \<open>focus()\<close> on that element and on no other, also in a controlled group, where the call
  changes no state and \<open>selectedIndex\<close> stays the \<open>index\<close> prop.
\<close>

theorem select_moves_focus:
  assumes "0 \<le> i" and "i < int (length (descendants g))"
    and "element (descendants g ! nat i) = Some e"
  shows "filter (\<lambda>x. \<exists>e'. x = Focus e') (fst (onSelect p g i)) = [Focus e]
       \<and> (isControlled g \<longrightarrow>
            snd (onSelect p g i) = Inr g \<and> selectedIndex p g = index p)"
  using assms by (auto simp: onSelect_def js_nth_def selectedIndex_def Let_def)

theorem select_moves_focus_witness:
  "filter (\<lambda>x. \<exists>e'. x = Focus e') (fst (onSelect (controlled_props 1) crust_controlled 0)) = [Focus 10]
   \<and> isControlled crust_controlled
   \<and> snd (onSelect (controlled_props 1) crust_controlled 0) = Inr crust_controlled
   \<and> selectedIndex (controlled_props 1) crust_controlled = Index 1"
proof -
  have h: "(0::int) \<le> 0" "(0::int) < int (length (descendants crust_controlled))"
    "element (descendants crust_controlled ! nat 0) = Some 10"
    by (simp_all add: crust_controlled_def crust_def)
  have c: "isControlled crust_controlled"
    by (simp add: crust_controlled_def)
  from select_moves_focus [OF h, of "controlled_props 1"] c
  show ?thesis by (simp add: controlled_props_def)
qed

end
